theory Spec2Isabelle
  imports Complex_Main "HOL-Library.Sublist"
begin

section \<open>Chunker (utils.ts, \<open>chunk\<close>)\<close>

text \<open>
  \<^verbatim>\<open>
  export const chunk = <T>(arr: T[], size: number): T[][] => {
    const out: T[][] = [];
    for (let i = 0; i < arr.length; i += size) out.push(arr.slice(i, i + size));
    return out;
  };
  \<close>
  The size is an integer here (the only caller passes the result of \<open>parseInt\<close>), written
  \<open>sz\<close> because \<open>size\<close> is a constant of HOL; arrays are lists of unbounded length. \<open>slice\<close> is \<open>Array.prototype.slice\<close> on integer arguments:
  a negative index counts from the end, and both ends are clamped to the array.
\<close>

definition slice :: "'a list \<Rightarrow> int \<Rightarrow> int \<Rightarrow> 'a list" where
  "slice arr start stop =
     (let len = int (length arr);
          k = (if start < 0 then max (len + start) 0 else min start len);
          final = (if stop < 0 then max (len + stop) 0 else min stop len)
      in take (nat (final - k)) (drop (nat k) arr))"

text \<open>
  The \<open>for\<close> loop: \<open>i\<close> is the loop index, \<open>out\<close> the array built so far. The loop has no
  bound that the code enforces, so it is a partial function: \<open>None\<close> is "never returns".
\<close>

partial_function (option) chunk_loop ::
  "'a list \<Rightarrow> int \<Rightarrow> int \<Rightarrow> 'a list list \<Rightarrow> 'a list list option" where
  "chunk_loop arr sz i out =
     (if i < int (length arr)
      then chunk_loop arr sz (i + sz) (out @ [slice arr i (i + sz)])
      else Some out)"

declare chunk_loop.simps [code]

definition chunk :: "'a list \<Rightarrow> int \<Rightarrow> 'a list list option" where
  "chunk arr sz = chunk_loop arr sz 0 []"

section \<open>Values of the runtime\<close>

text \<open>
  A \<open>number\<close> is a rational here: every finite double is one, and the code only compares
  numbers, divides two positive integers and prints them. A string is a list of bytes
  (UTF-8); a thrown exception is a value of \<open>exn\<close>, \<open>Error msg\<close> for \<open>new Error(msg)\<close>.
\<close>

type_synonym number = rat

datatype exn = Error string | TypeError | SyntaxError

text \<open>
  Template literals print a number with \<open>Number::toString\<close>: an integer in the safe range
  (\<open>|x| < 2^53\<close>) is printed in decimal digits, with a leading \<open>-\<close> when negative. What the
  engine prints for any other value depends on its floating-point value, and is the
  parameter \<open>other\<close>.
\<close>

fun digits :: "nat \<Rightarrow> string" where
  "digits n =
     (if n < 10 then [''0123456789'' ! n]
      else digits (n div 10) @ [''0123456789'' ! (n mod 10)])"

declare digits.simps [simp del]

definition Number_toString :: "(number \<Rightarrow> string) \<Rightarrow> number \<Rightarrow> string" where
  "Number_toString other x =
     (if of_int \<lfloor>x\<rfloor> = x \<and> \<bar>x\<bar> < 2 ^ 53
      then (if x < 0 then ''-'' else []) @ digits (nat \<bar>\<lfloor>x\<rfloor>\<bar>)
      else other x)"

text \<open>\<open>Array.prototype.join\<close> on an array of strings.\<close>

fun join :: "string \<Rightarrow> string list \<Rightarrow> string" where
  "join sep [] = []"
| "join sep [x] = x"
| "join sep (x # y # ys) = x @ sep @ join sep (y # ys)"

text \<open>
  \<open>String.prototype.toLowerCase\<close>, on the ASCII letters. (No character outside ASCII
  lower-cases to an ASCII letter of \<open>high\<close>, \<open>medium\<close> or \<open>low\<close>, the only strings the result
  is compared with.)
\<close>

definition lower_char :: "char \<Rightarrow> char" where
  "lower_char c =
     (case map_of (zip ''ABCDEFGHIJKLMNOPQRSTUVWXYZ'' ''abcdefghijklmnopqrstuvwxyz'') c of
        None \<Rightarrow> c
      | Some l \<Rightarrow> l)"

definition toLowerCase :: "string \<Rightarrow> string" where
  "toLowerCase s = map lower_char s"

section \<open>Records (types.ts)\<close>

record Issue =
  number :: number
  title :: string
  body :: string
  state :: string
  createdAt :: string
  updatedAt :: string

record ParsedOutput =
  issue :: number
  likelihood :: string
  reason :: "string option"

text \<open>
  A value that \<open>JSON.parse\<close> returns. An object is the list of its own properties, and
  reading a property that is not there gives \<open>undefined\<close>, which is \<open>None\<close>.
\<close>

datatype json =
    JNull
  | JBool bool
  | JNumber number
  | JString string
  | JArray "json list"
  | JObject "(string \<times> json) list"

fun typeof :: "json option \<Rightarrow> string" where
  "typeof None = ''undefined''"
| "typeof (Some JNull) = ''object''"
| "typeof (Some (JBool b)) = ''boolean''"
| "typeof (Some (JNumber n)) = ''number''"
| "typeof (Some (JString s)) = ''string''"
| "typeof (Some (JArray xs)) = ''object''"
| "typeof (Some (JObject kvs)) = ''object''"

text \<open>
  \<open>item.name\<close> for a name that no prototype defines (\<open>issue\<close>, \<open>likelihood\<close>): only an
  object of the parsed text can have it.
\<close>

fun getProp :: "json \<Rightarrow> string \<Rightarrow> json option" where
  "getProp (JObject kvs) name = map_of kvs name"
| "getProp _ name = None"

section \<open>Prompt builder (utils.ts)\<close>

definition systemPromptMsg :: string where
  \<open>systemPromptMsg =
     ''You are an assistant that identifies potential duplicate or semantically similar GitHub issues.\<newline>'' @
     ''Return ONLY a JSON array. Include ONLY issues that have meaningful similarity to the current issue.\<newline>'' @
     ''Output format example: [{"issue":23,"likelihood":"high", "reason":"Both issues refer to fixing a similar bug in the authentication flow."},{"issue":30,"likelihood":"medium","reason":"Some overlapping content in the mention of processing error codes."}]\<newline>'' @
     ''Rules:\<newline>'' @
     ''- likelihood must be one of: high | medium | low\<newline>'' @
     ''- Provide at most 15 items.\<newline>'' @
     ''- If no sufficiently similar issues exist, return []\<newline>'' @
     ''- DO NOT add commentary, markdown, code fences, or any text outside the raw JSON array.''\<close>

text \<open>
  \<^verbatim>\<open>
  return `Current Issue (#${issueNumber})\nTitle: ${issueTitle}\nBody:\n${issueBody}`;
  \<close>
\<close>

definition buildCurrentIssueSummary ::
  "(number \<Rightarrow> string) \<Rightarrow> number \<Rightarrow> string \<Rightarrow> string \<Rightarrow> string" where
  "buildCurrentIssueSummary other issueNumber issueTitle issueBody =
     ''Current Issue (#'' @ Number_toString other issueNumber @ '')\<newline>Title: '' @ issueTitle @
     ''\<newline>Body:\<newline>'' @ issueBody"

text \<open>
  \<^verbatim>\<open>
  if (batch.length === 0) {
    throw new Error("Batch cannot be empty");
  }
  const batchText = batch
    .map((issue) => `#${issue.number} ${issue.title}\n${issue.body}`)
    .join("\n---\n");
  return `${systemPromptMsg}\n\n${currentIssueSummary}\n\nCandidate Issues (Batch ${batchId}):\n${batchText}`;
  \<close>
\<close>

definition buildBatchUserContent ::
  "(number \<Rightarrow> string) \<Rightarrow> string \<Rightarrow> number \<Rightarrow> Issue list \<Rightarrow> exn + string" where
  "buildBatchUserContent other currentIssueSummary batchId batch =
     (if length batch = 0 then Inl (Error ''Batch cannot be empty'')
      else
        let batchText =
              join ''\<newline>---\<newline>''
                (map (\<lambda>issue. ''#'' @ Number_toString other (number issue) @ '' '' @ title issue @
                                ''\<newline>'' @ body issue) batch)
        in Inr (systemPromptMsg @ ''\<newline>\<newline>'' @ currentIssueSummary @
                ''\<newline>\<newline>Candidate Issues (Batch '' @ Number_toString other batchId @
                ''):\<newline>'' @ batchText))"

section \<open>Response validator (utils.ts, \<open>verifyJsonResponse\<close>)\<close>

text \<open>
  \<^verbatim>\<open>
  if (!Array.isArray(data)) return false;
  for (const item of data) {
    if (typeof item !== "object" || item === null) return false;
    if (typeof item.issue !== "number") return false;
    if (!["high", "medium", "low"].includes(item?.likelihood?.toLowerCase()))
      return false;
  }
  return true;
  \<close>
  \<open>item?.likelihood?.toLowerCase()\<close>: the two \<open>?.\<close> stop at \<open>null\<close> and \<open>undefined\<close> only. A
  string has the method; on any other value \<open>.toLowerCase\<close> is \<open>undefined\<close>, and calling it
  throws a TypeError. The result is \<open>None\<close> for \<open>undefined\<close>.
\<close>

fun likelihood_toLowerCase :: "json option \<Rightarrow> exn + string option" where
  "likelihood_toLowerCase None = Inr None"
| "likelihood_toLowerCase (Some JNull) = Inr None"
| "likelihood_toLowerCase (Some (JString s)) = Inr (Some (toLowerCase s))"
| "likelihood_toLowerCase (Some v) = Inl TypeError"

text \<open>The loop over the items: \<open>Inr False\<close> is \<open>return false\<close>, \<open>Inl e\<close> a thrown exception.\<close>

fun verifyJsonResponse_loop :: "json list \<Rightarrow> exn + bool" where
  "verifyJsonResponse_loop [] = Inr True"
| "verifyJsonResponse_loop (item # rest) =
     (if typeof (Some item) \<noteq> ''object'' \<or> item = JNull then Inr False
      else if typeof (getProp item ''issue'') \<noteq> ''number'' then Inr False
      else
        (case likelihood_toLowerCase (getProp item ''likelihood'') of
           Inl e \<Rightarrow> Inl e
         | Inr l \<Rightarrow>
             if \<not> (case l of None \<Rightarrow> False | Some s \<Rightarrow> s \<in> set [''high'', ''medium'', ''low''])
             then Inr False
             else verifyJsonResponse_loop rest))"

fun verifyJsonResponse :: "json \<Rightarrow> exn + bool" where
  "verifyJsonResponse (JArray items) = verifyJsonResponse_loop items"
| "verifyJsonResponse data = Inr False"

section \<open>Batch pipeline (index.ts, \<open>main\<close>)\<close>

text \<open>
  The two collaborators are parameters. \<open>aiInference i content\<close> is what the \<open>i\<close>-th call
  (from 0) of \<open>aiInference\<close> returns for the user content \<open>content\<close>: \<open>None\<close> is \<open>undefined\<close>
  (the function catches its own errors). \<open>parse\<close> is \<open>JSON.parse\<close>: \<open>None\<close> is a thrown
  SyntaxError.

  The inference loop (lines 116 to 150); \<open>calls\<close> records the content of every call made.
  \<^verbatim>\<open>
  for (let i = 0; i < batches.length; i++) {
    const batch = batches[i]!;
    const batchId = (i + 1) / batches.length;
    const userContent = buildBatchUserContent(currentIssueSummary, batchId, batch);
    const aiResponse = await aiInference({ token, content: userContent, ... });
    if (aiResponse) {
      aiOutputs.push(aiResponse);
    }
  }
  \<close>
  An empty string is falsy, so an empty response is not pushed.
\<close>

function main_inference_loop ::
  "(number \<Rightarrow> string) \<Rightarrow> (nat \<Rightarrow> string \<Rightarrow> string option) \<Rightarrow> string \<Rightarrow> Issue list list \<Rightarrow>
   nat \<Rightarrow> string list \<Rightarrow> string list \<Rightarrow> exn + string list \<times> string list" where
  "main_inference_loop other aiInference currentIssueSummary batches i calls aiOutputs =
     (if i < length batches then
        (case buildBatchUserContent other currentIssueSummary
                ((of_nat i + 1) / of_nat (length batches)) (batches ! i) of
           Inl e \<Rightarrow> Inl e
         | Inr userContent \<Rightarrow>
             main_inference_loop other aiInference currentIssueSummary batches (i + 1)
               (calls @ [userContent])
               (case aiInference i userContent of
                  None \<Rightarrow> aiOutputs
                | Some aiResponse \<Rightarrow>
                    if aiResponse \<noteq> [] then aiOutputs @ [aiResponse] else aiOutputs))
      else Inr (calls, aiOutputs))"
  by pat_completeness auto
termination
  by (relation "measure (\<lambda>(other, aiInference, summary, batches, i, calls, aiOutputs).
        length batches - i)") auto

declare main_inference_loop.simps [simp del]

text \<open>
  The parse loop (lines 154 to 180). The validator runs inside the \<open>try\<close>, so an exception
  it throws is caught like a parse error.
  \<^verbatim>\<open>
  for (const response of aiOutputs) {
    try {
      const parsed = JSON.parse(response);
      if (verifyJsonResponse(parsed)) {
        parsedOutputs = parsed?.length ? parsedOutputs.concat(parsed) : parsedOutputs;
      } else { continue; }
    } catch (error) { continue; }
  }
  \<close>
\<close>

fun elements :: "json \<Rightarrow> json list" where
  "elements (JArray items) = items"
| "elements v = []"

fun main_parse_loop :: "(string \<Rightarrow> json option) \<Rightarrow> string list \<Rightarrow> json list \<Rightarrow> json list" where
  "main_parse_loop parse [] parsedOutputs = parsedOutputs"
| "main_parse_loop parse (response # rest) parsedOutputs =
     (case parse response of
        None \<Rightarrow> main_parse_loop parse rest parsedOutputs
      | Some parsed \<Rightarrow>
          (case verifyJsonResponse parsed of
             Inl e \<Rightarrow> main_parse_loop parse rest parsedOutputs
           | Inr ok \<Rightarrow>
               if ok
               then main_parse_loop parse rest
                      (if length (elements parsed) \<noteq> 0 then parsedOutputs @ elements parsed
                       else parsedOutputs)
               else main_parse_loop parse rest parsedOutputs))"

text \<open>
  \<open>main\<close>, from the batch-size check to the aggregate: line 45 (the check), then lines 94
  to 180. The inputs are the values \<open>main\<close> has read before (the issue's number, title and
  body, the batch size) and the candidates that \<open>getIssuesToCompare\<close> returned. Logging and
  the step summary are left out.
\<close>

record run =
  calls :: "string list"
  parsedOutputs :: "json list"

definition main ::
  "(number \<Rightarrow> string) \<Rightarrow> (nat \<Rightarrow> string \<Rightarrow> string option) \<Rightarrow> (string \<Rightarrow> json option) \<Rightarrow>
   number \<Rightarrow> string \<Rightarrow> string \<Rightarrow> int \<Rightarrow> Issue list \<Rightarrow> (exn + run) option" where
  "main other aiInference parse issueNumber issueTitle issueBody batchSize issuesToCompare =
     (if batchSize \<le> 0 \<or> batchSize > 100
      then Some (Inl (Error ''batch_size must be between 1 and 100''))
      else if length issuesToCompare = 0 then Some (Inr \<lparr>calls = [], parsedOutputs = []\<rparr>)
      else
        (case chunk issuesToCompare batchSize of
           None \<Rightarrow> None
         | Some batches \<Rightarrow>
             (case main_inference_loop other aiInference
                     (buildCurrentIssueSummary other issueNumber issueTitle issueBody)
                     batches 0 [] [] of
                Inl e \<Rightarrow> Some (Inl e)
              | Inr (cs, aiOutputs) \<Rightarrow>
                  Some (Inr \<lparr>calls = cs, parsedOutputs = main_parse_loop parse aiOutputs []\<rparr>))))"

section \<open>Report renderer (utils.ts \<open>buildCommentBody\<close>, and index.ts lines 194 to 207)\<close>

text \<open>
  The renderers read the results at their declared type \<open>ParsedOutput\<close>. \<open>x || "N/A"\<close> on
  a string that may be \<open>undefined\<close>: the empty string is falsy too.
\<close>

definition or_NA :: "string option \<Rightarrow> string" where
  "or_NA x = (case x of None \<Rightarrow> ''N/A'' | Some s \<Rightarrow> if s = [] then ''N/A'' else s)"

definition commentHeader :: "string list" where
  "commentHeader =
     [''## '' @ [CHR 0xE2, CHR 0x9A, CHR 0xA0, CHR 0xEF, CHR 0xB8, CHR 0x8F] @
        '' Potential Duplicate/Semantically Similar Issues Identified'',
      ''The following issues may be duplicates or semantically similar to the current issue. Please review them:'',
      []]"

text \<open>
  \<^verbatim>\<open>
  for (const output of outputs) {
    const issue = issuesToCompare.find(({ number }) => number === output.issue);
    commentLines.push(`**Issue** #${output.issue}: **${output.likelihood}**`);
    commentLines.push(`**Title:** ${issue?.title || "N/A"}`);
    commentLines.push(`**State:** ${issue?.state || "N/A"}`);
    commentLines.push(`**Reason:** ${output?.reason || "N/A"}`);
    commentLines.push("");
  }
  \<close>
\<close>

fun buildCommentBody_loop ::
  "(number \<Rightarrow> string) \<Rightarrow> Issue list \<Rightarrow> ParsedOutput list \<Rightarrow> string list \<Rightarrow> string list" where
  "buildCommentBody_loop other issuesToCompare [] commentLines = commentLines"
| "buildCommentBody_loop other issuesToCompare (output # rest) commentLines =
     (let found = find (\<lambda>c. number c = issue output) issuesToCompare in
      buildCommentBody_loop other issuesToCompare rest
        (commentLines @
         [''**Issue** #'' @ Number_toString other (issue output) @ '': **'' @ likelihood output @ ''**'',
          ''**Title:** '' @ or_NA (map_option title found),
          ''**State:** '' @ or_NA (map_option state found),
          ''**Reason:** '' @ or_NA (reason output),
          []]))"

definition buildCommentBody :: "(number \<Rightarrow> string) \<Rightarrow> ParsedOutput list \<Rightarrow> Issue list \<Rightarrow> string" where
  "buildCommentBody other outputs issuesToCompare =
     (if length outputs = 0 then ''No similar issues found.''
      else join ''\<newline>'' (buildCommentBody_loop other issuesToCompare outputs commentHeader))"

text \<open>
  The comment that \<open>main\<close> builds itself (index.ts, lines 194 to 207), reached only when
  \<open>parsedOutputs\<close> is not empty (line 187 returns otherwise):
  \<^verbatim>\<open>
  for (const output of parsedOutputs) {
    const issue = issuesToCompare.find(({ number }) => number == output.issue);
    commentLines.push(`**Issue** #${output.issue}: **${output.likelihood}**`);
    commentLines.push(`**Title:** ${issue?.title || "N/A"}`);
    commentLines.push(`**Reason:** ${output?.reason || "N/A"}`);
    commentLines.push("");
  }
  const commentBody = commentLines.join("\n");
  \<close>
\<close>

fun main_comment_loop ::
  "(number \<Rightarrow> string) \<Rightarrow> Issue list \<Rightarrow> ParsedOutput list \<Rightarrow> string list \<Rightarrow> string list" where
  "main_comment_loop other issuesToCompare [] commentLines = commentLines"
| "main_comment_loop other issuesToCompare (output # rest) commentLines =
     (let found = find (\<lambda>c. number c = issue output) issuesToCompare in
      main_comment_loop other issuesToCompare rest
        (commentLines @
         [''**Issue** #'' @ Number_toString other (issue output) @ '': **'' @ likelihood output @ ''**'',
          ''**Title:** '' @ or_NA (map_option title found),
          ''**Reason:** '' @ or_NA (reason output),
          []]))"

definition main_commentBody :: "(number \<Rightarrow> string) \<Rightarrow> ParsedOutput list \<Rightarrow> Issue list \<Rightarrow> string" where
  "main_commentBody other outputs issuesToCompare =
     join ''\<newline>'' (main_comment_loop other issuesToCompare outputs commentHeader)"

section \<open>The specification's words, as definitions to compare the code with\<close>

text \<open>
  The validator's acceptance rule as the specification words it: the value is an array,
  and every element is an object with a numeric \<open>issue\<close> and a \<open>likelihood\<close> string that,
  lower-cased, is \<open>high\<close>, \<open>medium\<close> or \<open>low\<close>.
\<close>

definition spec_valid_element :: "json \<Rightarrow> bool" where
  "spec_valid_element item =
     (case item of
        JObject kvs \<Rightarrow>
          (case map_of kvs ''issue'' of Some (JNumber n) \<Rightarrow> True | _ \<Rightarrow> False) \<and>
          (case map_of kvs ''likelihood'' of
             Some (JString s) \<Rightarrow> toLowerCase s \<in> {''high'', ''medium'', ''low''}
           | _ \<Rightarrow> False)
      | _ \<Rightarrow> False)"

definition spec_accepts :: "json \<Rightarrow> bool" where
  "spec_accepts data =
     (case data of JArray items \<Rightarrow> list_all spec_valid_element items | _ \<Rightarrow> False)"

text \<open>
  What one batch contributes to the aggregate, from the response to its call: nothing
  without a response text, nothing when the text does not parse, nothing when the parsed
  value is not accepted by the validator, and the elements of the array otherwise.
\<close>

definition batchContribution :: "(string \<Rightarrow> json option) \<Rightarrow> string option \<Rightarrow> json list" where
  "batchContribution parse response =
     (case response of
        None \<Rightarrow> []
      | Some text \<Rightarrow>
          if text = [] then []
          else
            (case parse text of
               None \<Rightarrow> []
             | Some parsed \<Rightarrow>
                 if verifyJsonResponse parsed = Inr True then elements parsed else []))"

text \<open>
  A state entry of a report: a line that the renderer pushes for the state of a result,
  \<open>**State:** \<close> followed by the state or \<open>N/A\<close>.
\<close>

definition is_state_line :: "string \<Rightarrow> bool" where
  "is_state_line l = prefix ''**State:** '' l"

section \<open>The chunker: partition, termination, and what a size that is not positive does\<close>

subsection \<open>The loop, for a positive size and for any other\<close>

lemma slice_step:
  assumes "0 \<le> i" "0 < sz"
  shows "slice arr i (i + sz) = take (nat sz) (drop (nat i) arr)"
  using assms by (auto simp: slice_def Let_def min_def max_def)

lemma partition_step:
  assumes k: "0 < k" and ne: "xs \<noteq> []"
    and cat: "concat bs = drop k xs"
    and len: "\<forall>b\<in>set bs. b \<noteq> [] \<and> length b \<le> k"
    and full: "\<forall>b\<in>set (butlast bs). length b = k"
  shows "concat (take k xs # bs) = xs \<and>
         (\<forall>b\<in>set (take k xs # bs). b \<noteq> [] \<and> length b \<le> k) \<and>
         (\<forall>b\<in>set (butlast (take k xs # bs)). length b = k)"
proof (cases "bs = []")
  case True
  with assms show ?thesis by auto
next
  case False
  then obtain b where "b \<in> set bs" by (cases bs) auto
  with cat len have "drop k xs \<noteq> []" by auto
  then have "k < length xs" by simp
  with assms False show ?thesis by auto
qed

lemma chunk_loop_positive:
  assumes "0 < sz" "0 \<le> i"
  shows "\<exists>bs. chunk_loop arr sz i out = Some (out @ bs) \<and>
              concat bs = drop (nat i) arr \<and>
              (\<forall>b\<in>set bs. b \<noteq> [] \<and> length b \<le> nat sz) \<and>
              (\<forall>b\<in>set (butlast bs). length b = nat sz)"
  using assms(2)
proof (induction "nat (int (length arr) - i)" arbitrary: i out rule: less_induct)
  case less
  show ?case
  proof (cases "i < int (length arr)")
    case False
    then show ?thesis using less.prems
      by (subst chunk_loop.simps) simp
  next
    case True
    let ?b = "slice arr i (i + sz)"
    have "nat (int (length arr) - (i + sz)) < nat (int (length arr) - i)"
      using True assms(1) by linarith
    moreover have "0 \<le> i + sz" using less.prems assms(1) by simp
    ultimately obtain bs where
      run: "chunk_loop arr sz (i + sz) (out @ [?b]) = Some ((out @ [?b]) @ bs)"
      and cat: "concat bs = drop (nat (i + sz)) arr"
      and len: "\<forall>b\<in>set bs. b \<noteq> [] \<and> length b \<le> nat sz"
      and full: "\<forall>b\<in>set (butlast bs). length b = nat sz"
      using less.hyps by blast
    have b: "?b = take (nat sz) (drop (nat i) arr)"
      using less.prems assms(1) by (rule slice_step)
    have "drop (nat (i + sz)) arr = drop (nat sz) (drop (nat i) arr)"
      using less.prems assms(1) by (simp add: nat_add_distrib add.commute)
    with cat have cat': "concat bs = drop (nat sz) (drop (nat i) arr)" by simp
    have ne: "drop (nat i) arr \<noteq> []" using True less.prems by simp
    have k: "0 < nat sz" using assms(1) by simp
    have "concat (?b # bs) = drop (nat i) arr \<and>
          (\<forall>b\<in>set (?b # bs). b \<noteq> [] \<and> length b \<le> nat sz) \<and>
          (\<forall>b\<in>set (butlast (?b # bs)). length b = nat sz)"
      unfolding b by (rule partition_step [OF k ne cat' len full])
    moreover have "chunk_loop arr sz i out = Some (out @ ?b # bs)"
      using True run by (subst chunk_loop.simps) simp
    ultimately show ?thesis by blast
  qed
qed

lemma chunk_loop_returns_only_past_the_end:
  assumes "chunk_loop arr sz i out = Some y"
  shows "sz \<le> 0 \<longrightarrow> int (length arr) \<le> i"
proof (rule chunk_loop.raw_induct
    [where P = "\<lambda>arr sz i out y. sz \<le> 0 \<longrightarrow> int (length arr) \<le> i", OF _ assms])
  fix f :: "'a list \<Rightarrow> int \<Rightarrow> int \<Rightarrow> 'a list list \<Rightarrow> 'a list list option"
    and arr sz i out y
  assume IH: "\<And>arr sz i out y. f arr sz i out = Some y \<Longrightarrow> sz \<le> 0 \<longrightarrow> int (length arr) \<le> i"
    and eq: "(if i < int (length arr)
              then f arr sz (i + sz) (out @ [slice arr i (i + sz)])
              else Some out) = Some y"
  show "sz \<le> 0 \<longrightarrow> int (length arr) \<le> i"
  proof (cases "i < int (length arr)")
    case True
    with eq have "f arr sz (i + sz) (out @ [slice arr i (i + sz)]) = Some y" by simp
    then have "sz \<le> 0 \<longrightarrow> int (length arr) \<le> i + sz" by (rule IH)
    then show ?thesis by auto
  next
    case False
    then show ?thesis by simp
  qed
qed

lemma chunk_loop_diverges:
  assumes "sz \<le> 0" "i < int (length arr)"
  shows "chunk_loop arr sz i out = None"
proof (cases "chunk_loop arr sz i out")
  case (Some y)
  from chunk_loop_returns_only_past_the_end [OF this] assms show ?thesis by simp
qed simp

lemma chunk_Nil: "chunk [] sz = Some []"
  unfolding chunk_def by (subst chunk_loop.simps) simp

lemma chunk_positive:
  assumes "0 < sz"
  shows "\<exists>bs. chunk arr sz = Some bs \<and> concat bs = arr \<and>
              (\<forall>b\<in>set bs. b \<noteq> [] \<and> length b \<le> nat sz) \<and>
              (\<forall>b\<in>set (butlast bs). length b = nat sz)"
  using chunk_loop_positive [OF assms, of 0 arr "[]"] by (simp add: chunk_def)

subsection \<open>Partition and termination\<close>

text \<open>
  C4. For every sequence \<open>S\<close> and every integer size \<open>k > 0\<close>, \<open>chunk S k\<close> returns slices that
  concatenate back to \<open>S\<close>; every slice has at most \<open>k\<close> elements, every slice but the last
  has exactly \<open>k\<close>, the last has between 1 and \<open>k\<close> when \<open>S\<close> is not empty, and the empty
  sequence gives no slice at all.
\<close>

theorem chunk_partitions:
  assumes "0 < k"
  shows "\<exists>bs. chunk S k = Some bs \<and> concat bs = S \<and>
              (\<forall>b\<in>set bs. int (length b) \<le> k) \<and>
              (\<forall>b\<in>set (butlast bs). int (length b) = k) \<and>
              (S \<noteq> [] \<longrightarrow> bs \<noteq> [] \<and> 1 \<le> length (last bs) \<and> int (length (last bs)) \<le> k) \<and>
              (S = [] \<longrightarrow> bs = [])"
proof -
  from chunk_positive [OF assms, of S] obtain bs where
    run: "chunk S k = Some bs" and cat: "concat bs = S"
    and len: "\<forall>b\<in>set bs. b \<noteq> [] \<and> length b \<le> nat k"
    and full: "\<forall>b\<in>set (butlast bs). length b = nat k"
    by blast
  have 1: "\<forall>b\<in>set bs. int (length b) \<le> k" using len assms by auto
  have 2: "\<forall>b\<in>set (butlast bs). int (length b) = k" using full assms by auto
  have 3: "S \<noteq> [] \<longrightarrow> bs \<noteq> [] \<and> 1 \<le> length (last bs) \<and> int (length (last bs)) \<le> k"
  proof
    assume "S \<noteq> []"
    with cat have ne: "bs \<noteq> []" by auto
    then have "last bs \<in> set bs" by simp
    with len have "last bs \<noteq> [] \<and> length (last bs) \<le> nat k" by blast
    with ne assms show "bs \<noteq> [] \<and> 1 \<le> length (last bs) \<and> int (length (last bs)) \<le> k"
      by (cases "last bs") auto
  qed
  have 4: "S = [] \<longrightarrow> bs = []"
  proof
    assume "S = []"
    with run show "bs = []" by (simp add: chunk_Nil)
  qed
  from run cat 1 2 3 4 show ?thesis by blast
qed

theorem chunk_partitions_witness:
  "(0::int) < 3 \<and>
   (\<exists>bs. chunk [1, 2, 3, 4, 5, 6, 7 :: nat] 3 = Some bs \<and> concat bs = [1, 2, 3, 4, 5, 6, 7] \<and>
         (\<forall>b\<in>set bs. int (length b) \<le> 3) \<and> (\<forall>b\<in>set (butlast bs). int (length b) = 3) \<and>
         bs \<noteq> [] \<and> 1 \<le> length (last bs) \<and> int (length (last bs)) \<le> 3)"
  using chunk_partitions [of 3 "[1, 2, 3, 4, 5, 6, 7 :: nat]"] by simp

text \<open>
  C9. \<open>chunk\<close> returns for every input when the size is positive, and for the empty
  input at any size; for a non-empty input and a size that is zero or negative the loop
  never ends, so nothing is returned and nothing is raised.
\<close>

theorem chunk_termination:
  "((0 < sz \<or> arr = []) \<longrightarrow> (\<exists>out. chunk arr sz = Some out)) \<and>
   (arr \<noteq> [] \<and> sz \<le> 0 \<longrightarrow> chunk arr sz = None)"
proof (intro conjI impI)
  assume "0 < sz \<or> arr = []"
  then show "\<exists>out. chunk arr sz = Some out"
  proof
    assume "0 < sz"
    from chunk_positive [OF this, of arr] show ?thesis by blast
  next
    assume "arr = []"
    then show ?thesis by (simp add: chunk_Nil)
  qed
next
  assume "arr \<noteq> [] \<and> sz \<le> 0"
  then show "chunk arr sz = None"
    unfolding chunk_def by (intro chunk_loop_diverges) simp_all
qed

theorem chunk_termination_witness:
  "(\<exists>out. chunk [1, 2, 3 :: nat] 2 = Some out) \<and> (\<exists>out. chunk ([] :: nat list) (- 1) = Some out) \<and>
   chunk [1 :: nat] 0 = None \<and> chunk [1 :: nat] (- 2) = None"
  using chunk_termination [of 2 "[1, 2, 3 :: nat]"] chunk_termination [of "- 1" "[] :: nat list"]
    chunk_termination [of 0 "[1 :: nat]"] chunk_termination [of "- 2" "[1 :: nat]"]
  by simp

text \<open>
  C5 as stated: \<open>chunk\<close> raises an error for every size that is not positive. It does not:
  the function has no check of its size and no \<open>throw\<close>; on the empty sequence with size 0
  it returns the empty list.
\<close>

theorem chunk_nonpositive_size_counterexample:
  "chunk ([] :: nat list) 0 = Some []"
  by (rule chunk_Nil)

text \<open>
  C5, amended. For every size that is zero or negative, \<open>chunk\<close> on the empty sequence
  returns the empty list, and the error for such a size is raised by \<open>main\<close>, whose check of
  the batch size comes before the call of \<open>chunk\<close>: \<open>main\<close> stops with the error
  \<open>batch_size must be between 1 and 100\<close>, whatever the candidates are.
\<close>

theorem nonpositive_size_rejected_by_main:
  assumes "sz \<le> 0"
  shows "chunk ([] :: 'a list) sz = Some [] \<and>
         main other aiInference parse issueNumber issueTitle issueBody sz issuesToCompare =
           Some (Inl (Error ''batch_size must be between 1 and 100''))"
  using assms by (simp add: chunk_Nil main_def)

theorem nonpositive_size_rejected_by_main_witness:
  "(0::int) \<le> 0 \<and> chunk ([] :: nat list) 0 = Some [] \<and>
   main (\<lambda>x. []) (\<lambda>i c. None) (\<lambda>s. None) 1 ''t'' ''b'' 0 [] =
     Some (Inl (Error ''batch_size must be between 1 and 100''))"
  using nonpositive_size_rejected_by_main
    [of 0 "\<lambda>x. []" "\<lambda>i c. None" "\<lambda>s. None" 1 "''t''" "''b''" "[]", where ?'a = nat]
  by simp

section \<open>The validator: what it accepts, and where it throws\<close>

lemma typeof_number_iff: "typeof v = ''number'' \<longleftrightarrow> (\<exists>n. v = Some (JNumber n))"
  by (cases v rule: typeof.cases) simp_all

lemma verify_item_accepts:
  "spec_valid_element item \<longleftrightarrow>
     typeof (Some item) = ''object'' \<and> item \<noteq> JNull \<and>
     typeof (getProp item ''issue'') = ''number'' \<and>
     (\<exists>s. likelihood_toLowerCase (getProp item ''likelihood'') = Inr (Some s) \<and>
          s \<in> set [''high'', ''medium'', ''low''])"
proof (cases item)
  case (JObject kvs)
  show ?thesis
  proof (cases "map_of kvs ''likelihood''")
    case None
    with JObject show ?thesis by (simp add: spec_valid_element_def)
  next
    case (Some l)
    with JObject show ?thesis
      by (cases l; cases "map_of kvs ''issue''")
         (auto simp: spec_valid_element_def typeof_number_iff split: json.splits)
  qed
qed (simp_all add: spec_valid_element_def)

lemma verifyJsonResponse_loop_accepts:
  "verifyJsonResponse_loop items = Inr True \<longleftrightarrow> list_all spec_valid_element items"
proof (induction items)
  case Nil
  show ?case by simp
next
  case (Cons item rest)
  show ?case
  proof (cases "spec_valid_element item")
    case True
    then show ?thesis using Cons.IH
      by (auto simp: verify_item_accepts)
  next
    case False
    then show ?thesis
      by (auto simp: verify_item_accepts split: sum.splits option.splits)
  qed
qed

text \<open>
  C3. \<open>verifyJsonResponse\<close> accepts a value exactly when it is an array (possibly empty)
  whose every element is an object with a numeric \<open>issue\<close> and a \<open>likelihood\<close> that,
  lower-cased, is \<open>high\<close>, \<open>medium\<close> or \<open>low\<close>; \<open>reason\<close> is not looked at. It accepts \<open>[]\<close>, the
  two-element example and a mixed-case likelihood, and returns \<open>false\<close> on a bare object,
  on \<open>[1,2,3]\<close>, on an element without \<open>issue\<close>, with a string \<open>issue\<close>, or with the
  likelihood \<open>certain\<close>.
\<close>

theorem verifyJsonResponse_accepts:
  "(verifyJsonResponse data = Inr True \<longleftrightarrow> spec_accepts data) \<and>
   verifyJsonResponse (JArray []) = Inr True \<and>
   verifyJsonResponse (JArray
     [JObject [(''issue'', JNumber 1), (''likelihood'', JString ''high'')],
      JObject [(''issue'', JNumber 2), (''likelihood'', JString ''low''), (''reason'', JString ''x'')]])
     = Inr True \<and>
   verifyJsonResponse (JArray [JObject [(''issue'', JNumber 1), (''likelihood'', JString ''HiGh'')]])
     = Inr True \<and>
   verifyJsonResponse (JObject [(''issue'', JNumber 1), (''likelihood'', JString ''high'')])
     = Inr False \<and>
   verifyJsonResponse (JArray [JNumber 1, JNumber 2, JNumber 3]) = Inr False \<and>
   verifyJsonResponse (JArray [JObject [(''likelihood'', JString ''high'')]]) = Inr False \<and>
   verifyJsonResponse (JArray [JObject [(''issue'', JString ''1''), (''likelihood'', JString ''high'')]])
     = Inr False \<and>
   verifyJsonResponse (JArray [JObject [(''issue'', JNumber 1), (''likelihood'', JString ''certain'')]])
     = Inr False"
proof -
  have "verifyJsonResponse data = Inr True \<longleftrightarrow> spec_accepts data"
    by (cases data) (simp_all add: spec_accepts_def verifyJsonResponse_loop_accepts)
  then show ?thesis
    by (simp add: toLowerCase_def lower_char_def)
qed

theorem verifyJsonResponse_accepts_witness:
  "spec_accepts (JArray [JObject [(''issue'', JNumber 7), (''likelihood'', JString ''MEDIUM'')]]) \<and>
   \<not> spec_accepts (JArray [JObject [(''issue'', JNumber 7), (''likelihood'', JNumber 5)]])"
proof -
  have "verifyJsonResponse
          (JArray [JObject [(''issue'', JNumber 7), (''likelihood'', JString ''MEDIUM'')]]) = Inr True"
    by (simp add: toLowerCase_def lower_char_def)
  moreover have "verifyJsonResponse
          (JArray [JObject [(''issue'', JNumber 7), (''likelihood'', JNumber 5)]]) \<noteq> Inr True"
    by simp
  ultimately show ?thesis
    using verifyJsonResponse_accepts
      [of "JArray [JObject [(''issue'', JNumber 7), (''likelihood'', JString ''MEDIUM'')]]"]
      verifyJsonResponse_accepts
      [of "JArray [JObject [(''issue'', JNumber 7), (''likelihood'', JNumber 5)]]"]
    by blast
qed

text \<open>
  C2 says that the validator returns a boolean on every value and never throws. On an
  element whose \<open>likelihood\<close> is a number, \<open>item?.likelihood?.toLowerCase()\<close> calls a method
  that a number does not have: the validator throws a TypeError instead of returning
  \<open>false\<close>.
\<close>

theorem verifyJsonResponse_throws_on_number_likelihood:
  "verifyJsonResponse (JArray [JObject [(''issue'', JNumber 1), (''likelihood'', JNumber 5)]])
     = Inl TypeError"
  by simp

section \<open>The prompt builder: the empty batch, the contents of a prompt, the batch header\<close>

lemma sublist_join:
  assumes "x \<in> set xs"
  shows "sublist x (join sep xs)"
  using assms
proof (induction sep xs rule: join.induct)
  case (1 sep)
  then show ?case by simp
next
  case (2 sep y)
  then show ?case by simp
next
  case (3 sep y z zs)
  show ?case
  proof (cases "x = y")
    case True
    then show ?thesis by simp
  next
    case False
    with 3 have "sublist x (join sep (z # zs))" by simp
    then obtain ps ss where "join sep (z # zs) = ps @ x @ ss"
      by (auto simp: sublist_def)
    then have "join sep (y # z # zs) = (y @ sep @ ps) @ x @ ss" by simp
    then show ?thesis unfolding sublist_def by blast
  qed
qed

lemma sublist_in_context:
  assumes "sublist x m"
  shows "sublist x (l @ m @ r)"
proof -
  from assms obtain ps ss where "m = ps @ x @ ss" by (auto simp: sublist_def)
  then have "l @ m @ r = (l @ ps) @ x @ (ss @ r)" by simp
  then show ?thesis unfolding sublist_def by blast
qed

text \<open>
  C7. On a batch with no candidate \<open>buildBatchUserContent\<close> throws the error
  \<open>Batch cannot be empty\<close>; on every other batch it returns a text that contains the system
  instruction block, the summary of the target issue, and for every candidate its
  \<open>#<id> <title>\<close> (so its id and its title).
\<close>

theorem buildBatchUserContent_contents:
  "buildBatchUserContent other summary batchId [] = Inl (Error ''Batch cannot be empty'') \<and>
   (batch \<noteq> [] \<longrightarrow>
      (\<exists>text. buildBatchUserContent other summary batchId batch = Inr text \<and>
         sublist systemPromptMsg text \<and> sublist summary text \<and>
         (\<forall>c\<in>set batch.
            sublist (''#'' @ Number_toString other (number c) @ '' '' @ title c) text \<and>
            sublist (Number_toString other (number c)) text \<and> sublist (title c) text)))"
proof (intro conjI impI)
  show "buildBatchUserContent other summary batchId [] = Inl (Error ''Batch cannot be empty'')"
    by (simp add: buildBatchUserContent_def)
next
  assume ne: "batch \<noteq> []"
  let ?render = "\<lambda>c. ''#'' @ Number_toString other (number c) @ '' '' @ title c @
                       ''\<newline>'' @ body c"
  let ?batchText = "join ''\<newline>---\<newline>'' (map ?render batch)"
  let ?head = "systemPromptMsg @ ''\<newline>\<newline>'' @ summary @
               ''\<newline>\<newline>Candidate Issues (Batch '' @ Number_toString other batchId @
               ''):\<newline>''"
  let ?text = "?head @ ?batchText"
  have run: "buildBatchUserContent other summary batchId batch = Inr ?text"
    using ne by (simp add: buildBatchUserContent_def)
  have sys: "sublist systemPromptMsg ?text"
    by (intro prefix_imp_sublist) simp
  have "?text = (systemPromptMsg @ ''\<newline>\<newline>'') @ summary @
          (''\<newline>\<newline>Candidate Issues (Batch '' @ Number_toString other batchId @
           ''):\<newline>'' @ ?batchText)"
    by simp
  then have summ: "sublist summary ?text"
    unfolding sublist_def by blast
  have cands: "sublist (''#'' @ Number_toString other (number c) @ '' '' @ title c) ?text \<and>
               sublist (Number_toString other (number c)) ?text \<and> sublist (title c) ?text"
    if c: "c \<in> set batch" for c
  proof -
    from c have "?render c \<in> set (map ?render batch)" by auto
    then have "sublist (?render c) ?batchText" by (rule sublist_join)
    then have whole: "sublist (?render c) (?head @ ?batchText @ [])"
      by (rule sublist_in_context)
    then obtain ps ss where split: "?text = ps @ ?render c @ ss"
      by (auto simp: sublist_def)
    let ?id = "Number_toString other (number c)"
    from split have
      "?text = ps @ (''#'' @ ?id @ '' '' @ title c) @ (''\<newline>'' @ body c @ ss)"
      "?text = (ps @ ''#'') @ ?id @ ('' '' @ title c @ ''\<newline>'' @ body c @ ss)"
      "?text = (ps @ ''#'' @ ?id @ '' '') @ title c @ (''\<newline>'' @ body c @ ss)"
      by simp_all
    then show ?thesis unfolding sublist_def by blast
  qed
  from run sys summ cands
  show "\<exists>text. buildBatchUserContent other summary batchId batch = Inr text \<and>
         sublist systemPromptMsg text \<and> sublist summary text \<and>
         (\<forall>c\<in>set batch.
            sublist (''#'' @ Number_toString other (number c) @ '' '' @ title c) text \<and>
            sublist (Number_toString other (number c)) text \<and> sublist (title c) text)"
    by blast
qed

theorem buildBatchUserContent_contents_witness:
  "\<exists>text. buildBatchUserContent (\<lambda>x. ''?'') ''Current Issue Summary'' 1
       [\<lparr>number = 101, title = ''Batch Issue 1'', body = ''Body of batch issue 1'',
         state = ''open'', createdAt = [], updatedAt = []\<rparr>] = Inr text \<and>
     sublist systemPromptMsg text \<and> sublist ''Current Issue Summary'' text \<and>
     sublist ''#101 Batch Issue 1'' text \<and> sublist ''101'' text \<and>
     sublist ''Batch Issue 1'' text"
  using buildBatchUserContent_contents [of "\<lambda>x. ''?''" "''Current Issue Summary''" 1
      "[\<lparr>number = 101, title = ''Batch Issue 1'', body = ''Body of batch issue 1'',
         state = ''open'', createdAt = [], updatedAt = []\<rparr>]"]
  by (simp add: Number_toString_def digits.simps)

text \<open>
  C6 says that the header of the prompt of batch \<open>i\<close> (from 0) embeds the integer \<open>i + 1\<close>.
  \<open>main\<close> passes \<open>(i + 1) / batches.length\<close> instead. With two candidates and batch size 1
  there are two batches: the header of the first embeds what one half prints as, and the
  header of the second reads \<open>Batch 1\<close>, not \<open>Batch 2\<close>.
\<close>

theorem batch_header_embeds_a_fraction:
  "\<exists>r. main other aiInference parse issueNumber issueTitle issueBody 1 [c1, c2] = Some (Inr r) \<and>
       calls r =
         [systemPromptMsg @ ''\<newline>\<newline>'' @
            buildCurrentIssueSummary other issueNumber issueTitle issueBody @
            ''\<newline>\<newline>Candidate Issues (Batch '' @ other (1 / 2) @ ''):\<newline>'' @
            ''#'' @ Number_toString other (number c1) @ '' '' @ title c1 @ ''\<newline>'' @ body c1,
          systemPromptMsg @ ''\<newline>\<newline>'' @
            buildCurrentIssueSummary other issueNumber issueTitle issueBody @
            ''\<newline>\<newline>Candidate Issues (Batch 1):\<newline>'' @
            ''#'' @ Number_toString other (number c2) @ '' '' @ title c2 @ ''\<newline>'' @ body c2]"
proof -
  have batches: "chunk [c1, c2] 1 = Some [[c1], [c2]]"
    by (simp add: chunk_def chunk_loop.simps slice_def)
  have half: "Number_toString other (1 / 2) = other (1 / 2)"
  proof -
    have "\<lfloor>1 / 2 :: rat\<rfloor> = 0" by (simp add: floor_eq_iff)
    then show ?thesis by (simp add: Number_toString_def)
  qed
  have one: "Number_toString other 1 = ''1''"
    by (simp add: Number_toString_def digits.simps)
  show ?thesis
    by (simp add: main_def batches main_inference_loop.simps buildBatchUserContent_def half one)
qed

section \<open>The batch pipeline: calls made, and one batch's failure stays its own\<close>

lemma batchContribution_of_output:
  assumes "response \<noteq> []"
  shows "main_parse_loop parse (response # rest) acc =
         main_parse_loop parse rest (acc @ batchContribution parse (Some response))"
proof (cases "parse response")
  case None
  then show ?thesis using assms by (simp add: batchContribution_def)
next
  case (Some parsed)
  show ?thesis
  proof (cases "verifyJsonResponse parsed")
    case (Inl e)
    with Some assms show ?thesis by (simp add: batchContribution_def)
  next
    case (Inr ok)
    with Some assms show ?thesis by (cases ok) (simp_all add: batchContribution_def)
  qed
qed

lemma main_parse_loop_concat:
  assumes "\<forall>response\<in>set aiOutputs. response \<noteq> []"
  shows "main_parse_loop parse aiOutputs acc =
         acc @ concat (map (\<lambda>response. batchContribution parse (Some response)) aiOutputs)"
  using assms
proof (induction aiOutputs arbitrary: acc)
  case Nil
  show ?case by simp
next
  case (Cons response rest)
  then have "response \<noteq> []" by simp
  from batchContribution_of_output [OF this] Cons show ?case by simp
qed

lemma main_inference_loop_result:
  assumes "\<forall>j<length batches. batches ! j \<noteq> []"
  shows "main_inference_loop other aiInference summary batches i cs aiOutputs =
         Inr (cs @ map (\<lambda>j. projr (buildBatchUserContent other summary
                                ((of_nat j + 1) / of_nat (length batches)) (batches ! j)))
                    [i..<length batches],
              aiOutputs @ concat (map (\<lambda>j.
                  case aiInference j (projr (buildBatchUserContent other summary
                                ((of_nat j + 1) / of_nat (length batches)) (batches ! j))) of
                    None \<Rightarrow> []
                  | Some aiResponse \<Rightarrow> if aiResponse \<noteq> [] then [aiResponse] else [])
                [i..<length batches]))"
  using assms
proof (induction other aiInference summary batches i cs aiOutputs
    rule: main_inference_loop.induct)
  case (1 other aiInference summary batches i cs aiOutputs)
  show ?case
  proof (cases "i < length batches")
    case False
    then show ?thesis by (subst main_inference_loop.simps) simp
  next
    case True
    let ?r = "buildBatchUserContent other summary
                ((of_nat i + 1) / of_nat (length batches)) (batches ! i)"
    from True "1.prems" have "batches ! i \<noteq> []" by simp
    then obtain userContent where uc: "?r = Inr userContent"
      by (simp add: buildBatchUserContent_def)
    let ?outs = "case aiInference i userContent of
                   None \<Rightarrow> aiOutputs
                 | Some aiResponse \<Rightarrow>
                     if aiResponse \<noteq> [] then aiOutputs @ [aiResponse] else aiOutputs"
    have upt: "[i..<length batches] = i # [i + 1..<length batches]"
      using True by (simp add: upt_conv_Cons)
    have step: "main_inference_loop other aiInference summary batches i cs aiOutputs =
                main_inference_loop other aiInference summary batches (i + 1)
                  (cs @ [userContent]) ?outs"
      by (subst main_inference_loop.simps) (simp add: True uc)
    show ?thesis
      unfolding step "1.IH" [OF True uc "1.prems"] upt
      by (simp add: uc split: option.splits)
  qed
qed

lemma batchContribution_of_response:
  "concat (map (\<lambda>response. batchContribution parse (Some response))
     (case response of None \<Rightarrow> []
      | Some aiResponse \<Rightarrow> if aiResponse \<noteq> [] then [aiResponse] else [])) =
   batchContribution parse response"
  by (simp add: batchContribution_def split: option.splits)

lemma chunk_seven_by_three:
  "chunk [a, b, c, d, e, f, g] 3 = Some [[a, b, c], [d, e, f], [g]]"
  by (simp add: chunk_def chunk_loop.simps slice_def)

lemma length_seven:
  assumes "length xs = 7"
  obtains a b c d e f g where "xs = [a, b, c, d, e, f, g]"
  using assms by (auto simp: eval_nat_numeral length_Suc_conv)

text \<open>
  C1. With 7 candidates and batch size 3, \<open>main\<close> makes exactly 3 inference calls, on the
  prompts of batches of 3, 3 and 1 candidates. Whatever the three responses are, the
  aggregate is the contribution of batch 1, then that of batch 2, then that of batch 3,
  where a response that does not parse contributes nothing and a response that parses to
  an array the validator accepts contributes the elements of that array.
\<close>

theorem seven_candidates_three_calls:
  assumes "length issuesToCompare = 7"
  shows "\<exists>b1 b2 b3 p1 p2 p3 r.
     chunk issuesToCompare 3 = Some [b1, b2, b3] \<and>
     length b1 = 3 \<and> length b2 = 3 \<and> length b3 = 1 \<and>
     buildBatchUserContent other
       (buildCurrentIssueSummary other issueNumber issueTitle issueBody) (1 / 3) b1 = Inr p1 \<and>
     buildBatchUserContent other
       (buildCurrentIssueSummary other issueNumber issueTitle issueBody) (2 / 3) b2 = Inr p2 \<and>
     buildBatchUserContent other
       (buildCurrentIssueSummary other issueNumber issueTitle issueBody) 1 b3 = Inr p3 \<and>
     main other aiInference parse issueNumber issueTitle issueBody 3 issuesToCompare
       = Some (Inr r) \<and>
     calls r = [p1, p2, p3] \<and>
     parsedOutputs r =
       batchContribution parse (aiInference 0 p1) @
       batchContribution parse (aiInference 1 p2) @
       batchContribution parse (aiInference 2 p3) \<and>
     (\<forall>text. parse text = None \<longrightarrow> batchContribution parse (Some text) = []) \<and>
     (\<forall>text items. text \<noteq> [] \<and> parse text = Some (JArray items) \<and>
        verifyJsonResponse (JArray items) = Inr True \<longrightarrow>
        batchContribution parse (Some text) = items)"
proof -
  from assms obtain a b c d e f g where xs: "issuesToCompare = [a, b, c, d, e, f, g]"
    by (rule length_seven)
  let ?S = "buildCurrentIssueSummary other issueNumber issueTitle issueBody"
  let ?batches = "[[a, b, c], [d, e, f], [g]]"
  let ?P = "\<lambda>j. projr (buildBatchUserContent other ?S
                      ((of_nat j + 1) / of_nat (length ?batches)) (?batches ! j))"
  let ?keep = "\<lambda>j. case aiInference j (?P j) of None \<Rightarrow> []
                 | Some aiResponse \<Rightarrow> if aiResponse \<noteq> [] then [aiResponse] else []"
  have ne: "\<forall>j<length ?batches. ?batches ! j \<noteq> []"
    by (simp add: nth_Cons' less_Suc_eq)
  have upt3: "[0..<length ?batches] = [0, 1, 2]"
    by (simp add: upt_conv_Cons)
  have loop: "main_inference_loop other aiInference ?S ?batches 0 [] [] =
              Inr ([?P 0, ?P 1, ?P 2], ?keep 0 @ ?keep 1 @ ?keep 2)"
    unfolding main_inference_loop_result [OF ne] upt3 by simp
  have nonempty: "\<forall>response\<in>set (?keep 0 @ ?keep 1 @ ?keep 2). response \<noteq> []"
    by (auto split: option.splits if_splits)
  have agg: "main_parse_loop parse (?keep 0 @ ?keep 1 @ ?keep 2) [] =
             batchContribution parse (aiInference 0 (?P 0)) @
             batchContribution parse (aiInference 1 (?P 1)) @
             batchContribution parse (aiInference 2 (?P 2))"
    unfolding main_parse_loop_concat [OF nonempty]
    by (simp add: batchContribution_of_response)
  have p1: "buildBatchUserContent other ?S (1 / 3) [a, b, c] = Inr (?P 0)"
    by (simp add: buildBatchUserContent_def)
  have p2: "buildBatchUserContent other ?S (2 / 3) [d, e, f] = Inr (?P 1)"
    by (simp add: buildBatchUserContent_def)
  have p3: "buildBatchUserContent other ?S 1 [g] = Inr (?P 2)"
    by (simp add: buildBatchUserContent_def)
  have run: "main other aiInference parse issueNumber issueTitle issueBody 3 issuesToCompare =
             Some (Inr \<lparr>calls = [?P 0, ?P 1, ?P 2],
                        parsedOutputs = main_parse_loop parse (?keep 0 @ ?keep 1 @ ?keep 2) []\<rparr>)"
    unfolding main_def xs chunk_seven_by_three using loop by simp
  have unparsed: "\<forall>text. parse text = None \<longrightarrow> batchContribution parse (Some text) = []"
    by (simp add: batchContribution_def)
  have accepted: "\<forall>text items. text \<noteq> [] \<and> parse text = Some (JArray items) \<and>
        verifyJsonResponse (JArray items) = Inr True \<longrightarrow>
        batchContribution parse (Some text) = items"
    by (simp add: batchContribution_def)
  show ?thesis
    apply (rule exI [of _ "[a, b, c]"], rule exI [of _ "[d, e, f]"], rule exI [of _ "[g]"])
    apply (rule exI [of _ "?P 0"], rule exI [of _ "?P 1"], rule exI [of _ "?P 2"])
    apply (rule exI [of _ "\<lparr>calls = [?P 0, ?P 1, ?P 2],
                        parsedOutputs = main_parse_loop parse (?keep 0 @ ?keep 1 @ ?keep 2) []\<rparr>"])
    apply (intro conjI)
    apply (simp add: xs chunk_seven_by_three)
    apply simp
    apply simp
    apply simp
    apply (rule p1)
    apply (rule p2)
    apply (rule p3)
    apply (rule run)
    apply simp
    apply (simp only: run.simps agg)
    apply (rule unparsed)
    apply (rule accepted)
    done
qed

theorem seven_candidates_three_calls_witness:
  \<open>length (map (\<lambda>n. \<lparr>number = of_nat n, title = ''T'', body = ''B'', state = ''open'',
                        createdAt = [], updatedAt = []\<rparr>) [1..<8]) = 7 \<and>
   (\<exists>r. main (\<lambda>x. ''?'')
          (\<lambda>i content. if i = 0 then Some ''[{"issue":1,"likelihood":"high"}]''
                        else if i = 1 then Some ''Sorry, I cannot help with that.''
                        else Some ''[{"issue":7,"likelihood":"low"}]'')
          (\<lambda>text. if text = ''[{"issue":1,"likelihood":"high"}]''
                   then Some (JArray [JObject [(''issue'', JNumber 1), (''likelihood'', JString ''high'')]])
                   else if text = ''[{"issue":7,"likelihood":"low"}]''
                   then Some (JArray [JObject [(''issue'', JNumber 7), (''likelihood'', JString ''low'')]])
                   else None)
          5 ''title'' ''body'' 3
          (map (\<lambda>n. \<lparr>number = of_nat n, title = ''T'', body = ''B'', state = ''open'',
                        createdAt = [], updatedAt = []\<rparr>) [1..<8]) = Some (Inr r) \<and>
        length (calls r) = 3 \<and>
        parsedOutputs r =
          [JObject [(''issue'', JNumber 1), (''likelihood'', JString ''high'')],
           JObject [(''issue'', JNumber 7), (''likelihood'', JString ''low'')]])\<close>
proof -
  let ?issues = "map (\<lambda>n. \<lparr>number = of_nat n, title = ''T'', body = ''B'', state = ''open'',
                        createdAt = [], updatedAt = []\<rparr>) [1..<8]"
  have len: "length ?issues = 7" by simp
  from seven_candidates_three_calls [OF len] len show ?thesis
    by (fastforce simp: batchContribution_def toLowerCase_def lower_char_def)
qed

section \<open>The report renderer: empty fields, and the two forms of the report\<close>

lemma buildCommentBody_loop_blocks:
  "buildCommentBody_loop other issuesToCompare outputs commentLines =
   commentLines @
   concat (map (\<lambda>output. buildCommentBody_loop other issuesToCompare [output] []) outputs)"
  by (induction outputs arbitrary: commentLines) (simp_all add: Let_def)

lemma main_comment_loop_blocks:
  "main_comment_loop other issuesToCompare outputs commentLines =
   commentLines @
   concat (map (\<lambda>output. main_comment_loop other issuesToCompare [output] []) outputs)"
  by (induction outputs arbitrary: commentLines) (simp_all add: Let_def)

lemma nth_concat_blocks:
  assumes "\<forall>x\<in>set xs. length (f x) = m" "k < length xs" "j < m"
  shows "concat (map f xs) ! (m * k + j) = f (xs ! k) ! j"
  using assms
proof (induction xs arbitrary: k)
  case Nil
  then show ?case by simp
next
  case (Cons x xs)
  show ?case
  proof (cases k)
    case 0
    with Cons.prems show ?thesis by (simp add: nth_append)
  next
    case (Suc k')
    with Cons.prems have "concat (map f xs) ! (m * k' + j) = f (xs ! k') ! j"
      by (intro Cons.IH) simp_all
    moreover have "\<not> m * k + j < length (f x)" using Cons.prems Suc by simp
    moreover have "m * k + j - length (f x) = m * k' + j" using Cons.prems Suc by simp
    ultimately show ?thesis using Suc by (simp add: nth_append)
  qed
qed

lemma length_commentHeader: "length commentHeader = 3"
  by (simp add: commentHeader_def)

lemma nth_full_report:
  assumes "k < length outputs" "j < 5"
  shows "buildCommentBody_loop other issuesToCompare outputs commentHeader ! (3 + 5 * k + j) =
         buildCommentBody_loop other issuesToCompare [outputs ! k] [] ! j"
proof -
  let ?f = "\<lambda>output. buildCommentBody_loop other issuesToCompare [output] []"
  have "\<forall>x\<in>set outputs. length (?f x) = 5" by (simp add: Let_def)
  from nth_concat_blocks [of outputs ?f 5 k j, OF this assms]
  show ?thesis
    by (subst buildCommentBody_loop_blocks)
       (simp add: nth_append length_commentHeader add.assoc)
qed

lemma nth_trimmed_report:
  assumes "k < length outputs" "j < 4"
  shows "main_comment_loop other issuesToCompare outputs commentHeader ! (3 + 4 * k + j) =
         main_comment_loop other issuesToCompare [outputs ! k] [] ! j"
proof -
  let ?f = "\<lambda>output. main_comment_loop other issuesToCompare [output] []"
  have "\<forall>x\<in>set outputs. length (?f x) = 4" by (simp add: Let_def)
  from nth_concat_blocks [of outputs ?f 4 k j, OF this assms]
  show ?thesis
    by (subst main_comment_loop_blocks)
       (simp add: nth_append length_commentHeader add.assoc)
qed

text \<open>
  C10. In both renderers, line 3 + 5k (3 + 4k in the trimmed form) starts the block of the
  k-th result. Its title line reads \<open>N/A\<close> when the matched candidate has the empty title,
  exactly as when no candidate matches; its state line reads \<open>N/A\<close> when the matched candidate
  has the empty state, as when no candidate matches; its reason line reads \<open>N/A\<close> when the
  reason is the empty string, as when the reason is absent.
\<close>

theorem empty_fields_render_as_NA:
  assumes "k < length outputs"
  shows "let output = outputs ! k;
             found = find (\<lambda>c. number c = issue output) issuesToCompare;
             full = buildCommentBody_loop other issuesToCompare outputs commentHeader;
             trimmed = main_comment_loop other issuesToCompare outputs commentHeader
         in full ! (3 + 5 * k) =
              ''**Issue** #'' @ Number_toString other (issue output) @ '': **'' @
              likelihood output @ ''**'' \<and>
            trimmed ! (3 + 4 * k) = full ! (3 + 5 * k) \<and>
            ((found = None \<or> map_option title found = Some []) \<longrightarrow>
               full ! (3 + 5 * k + 1) = ''**Title:** N/A'' \<and>
               trimmed ! (3 + 4 * k + 1) = ''**Title:** N/A'') \<and>
            ((found = None \<or> map_option state found = Some []) \<longrightarrow>
               full ! (3 + 5 * k + 2) = ''**State:** N/A'') \<and>
            ((reason output = None \<or> reason output = Some []) \<longrightarrow>
               full ! (3 + 5 * k + 3) = ''**Reason:** N/A'' \<and>
               trimmed ! (3 + 4 * k + 2) = ''**Reason:** N/A'')"
proof -
  have full: "buildCommentBody_loop other issuesToCompare outputs commentHeader ! (3 + 5 * k + j) =
              buildCommentBody_loop other issuesToCompare [outputs ! k] [] ! j" if "j < 5" for j
    using assms that by (rule nth_full_report)
  have trimmed: "main_comment_loop other issuesToCompare outputs commentHeader ! (3 + 4 * k + j) =
              main_comment_loop other issuesToCompare [outputs ! k] [] ! j" if "j < 4" for j
    using assms that by (rule nth_trimmed_report)
  show ?thesis
    using full [of 0] full [of 1] full [of 2] full [of 3]
      trimmed [of 0] trimmed [of 1] trimmed [of 2]
    by (auto simp: Let_def or_NA_def)
qed

theorem empty_fields_render_as_NA_witness:
  "buildCommentBody_loop (\<lambda>x. ''?'')
     [\<lparr>number = 3, title = [], body = [], state = [], createdAt = [], updatedAt = []\<rparr>]
     [\<lparr>issue = 3, likelihood = ''low'', reason = Some []\<rparr>] commentHeader ! 4 = ''**Title:** N/A'' \<and>
   buildCommentBody_loop (\<lambda>x. ''?'')
     [\<lparr>number = 3, title = [], body = [], state = [], createdAt = [], updatedAt = []\<rparr>]
     [\<lparr>issue = 3, likelihood = ''low'', reason = Some []\<rparr>] commentHeader ! 5 = ''**State:** N/A'' \<and>
   buildCommentBody_loop (\<lambda>x. ''?'')
     [\<lparr>number = 3, title = [], body = [], state = [], createdAt = [], updatedAt = []\<rparr>]
     [\<lparr>issue = 3, likelihood = ''low'', reason = Some []\<rparr>] commentHeader ! 6 = ''**Reason:** N/A'' \<and>
   main_comment_loop (\<lambda>x. ''?'')
     [\<lparr>number = 3, title = [], body = [], state = [], createdAt = [], updatedAt = []\<rparr>]
     [\<lparr>issue = 3, likelihood = ''low'', reason = Some []\<rparr>] commentHeader ! 4 = ''**Title:** N/A'' \<and>
   main_comment_loop (\<lambda>x. ''?'')
     [\<lparr>number = 3, title = [], body = [], state = [], createdAt = [], updatedAt = []\<rparr>]
     [\<lparr>issue = 3, likelihood = ''low'', reason = Some []\<rparr>] commentHeader ! 5 = ''**Reason:** N/A''"
  using empty_fields_render_as_NA [of 0 "[\<lparr>issue = 3, likelihood = ''low'', reason = Some []\<rparr>]"
      "[\<lparr>number = 3, title = [], body = [], state = [], createdAt = [], updatedAt = []\<rparr>]"
      "\<lambda>x. ''?''"]
  by (simp add: Let_def)

subsection \<open>The trimmed form against the full form\<close>

lemma header_has_no_state_line:
  "filter (\<lambda>l. \<not> is_state_line l) commentHeader = commentHeader"
  by (simp add: commentHeader_def is_state_line_def)

lemma block_without_state_line:
  "filter (\<lambda>l. \<not> is_state_line l) (buildCommentBody_loop other issuesToCompare [output] []) =
   main_comment_loop other issuesToCompare [output] []"
  by (simp add: is_state_line_def Let_def)

lemma trimmed_lines_are_full_lines_without_state:
  "main_comment_loop other issuesToCompare outputs commentHeader =
   filter (\<lambda>l. \<not> is_state_line l)
     (buildCommentBody_loop other issuesToCompare outputs commentHeader)"
proof -
  have "filter (\<lambda>l. \<not> is_state_line l)
          (concat (map (\<lambda>output. buildCommentBody_loop other issuesToCompare [output] []) outputs)) =
        concat (map (\<lambda>output. main_comment_loop other issuesToCompare [output] []) outputs)"
    by (induction outputs) (simp_all add: block_without_state_line del: buildCommentBody_loop.simps main_comment_loop.simps)
  then show ?thesis
    by (subst main_comment_loop_blocks, subst buildCommentBody_loop_blocks)
       (simp add: header_has_no_state_line)
qed

lemma header_has_no_state_entry:
  "filter is_state_line commentHeader = []"
  by (simp add: commentHeader_def is_state_line_def)

lemma state_entry_of_block:
  "filter is_state_line (buildCommentBody_loop other issuesToCompare [output] []) =
   [''**State:** '' @
    or_NA (map_option state (find (\<lambda>c. number c = issue output) issuesToCompare))]"
  by (simp add: is_state_line_def Let_def)

lemma state_entries_of_full_lines:
  "filter is_state_line (buildCommentBody_loop other issuesToCompare outputs commentHeader) =
   map (\<lambda>output. ''**State:** '' @
          or_NA (map_option state (find (\<lambda>c. number c = issue output) issuesToCompare)))
     outputs"
proof -
  have "filter is_state_line
          (concat (map (\<lambda>output. buildCommentBody_loop other issuesToCompare [output] []) outputs)) =
        map (\<lambda>output. ''**State:** '' @
               or_NA (map_option state (find (\<lambda>c. number c = issue output) issuesToCompare)))
          outputs"
    by (induction outputs)
       (simp_all add: state_entry_of_block del: buildCommentBody_loop.simps)
  then show ?thesis
    by (subst buildCommentBody_loop_blocks) (simp add: header_has_no_state_entry)
qed

text \<open>
  C8. For every result list and every candidate list, the trimmed report that \<open>main\<close> posts
  and the full report of \<open>buildCommentBody\<close> come from the same lines: the lines that the
  trimmed form joins are the lines of the full form without its state entries, the state
  entries of the full form are exactly one \<open>**State:** ...\<close> line per result, in order, and
  for a non-empty result list the full report is the join of the full form's lines (the
  empty list gives \<open>No similar issues found.\<close> instead). So the two reports differ only by
  the state field.
\<close>

theorem trimmed_report_is_full_report_without_state:
  "main_commentBody other outputs issuesToCompare =
     join ''\<newline>'' (filter (\<lambda>l. \<not> is_state_line l)
       (buildCommentBody_loop other issuesToCompare outputs commentHeader)) \<and>
   filter is_state_line (buildCommentBody_loop other issuesToCompare outputs commentHeader) =
     map (\<lambda>output. ''**State:** '' @
            or_NA (map_option state (find (\<lambda>c. number c = issue output) issuesToCompare)))
       outputs \<and>
   (outputs \<noteq> [] \<longrightarrow>
      buildCommentBody other outputs issuesToCompare =
        join ''\<newline>'' (buildCommentBody_loop other issuesToCompare outputs commentHeader)) \<and>
   buildCommentBody other [] issuesToCompare = ''No similar issues found.''"
proof (intro conjI impI)
  show "main_commentBody other outputs issuesToCompare =
     join ''\<newline>'' (filter (\<lambda>l. \<not> is_state_line l)
       (buildCommentBody_loop other issuesToCompare outputs commentHeader))"
    unfolding main_commentBody_def
    by (simp only: trimmed_lines_are_full_lines_without_state)
  show "filter is_state_line (buildCommentBody_loop other issuesToCompare outputs commentHeader) =
     map (\<lambda>output. ''**State:** '' @
            or_NA (map_option state (find (\<lambda>c. number c = issue output) issuesToCompare)))
       outputs"
    by (rule state_entries_of_full_lines)
  show "buildCommentBody other [] issuesToCompare = ''No similar issues found.''"
    by (simp add: buildCommentBody_def)
next
  assume "outputs \<noteq> []"
  then show "buildCommentBody other outputs issuesToCompare =
        join ''\<newline>'' (buildCommentBody_loop other issuesToCompare outputs commentHeader)"
    by (simp add: buildCommentBody_def)
qed

theorem trimmed_report_is_full_report_without_state_witness:
  "main_commentBody (\<lambda>x. ''?'')
     [\<lparr>issue = 1, likelihood = ''High'', reason = Some ''Similar issue''\<rparr>,
      \<lparr>issue = 9, likelihood = ''low'', reason = None\<rparr>]
     [\<lparr>number = 1, title = ''Issue One'', body = ''Description'', state = ''open'',
       createdAt = [], updatedAt = []\<rparr>] =
   join ''\<newline>'' (filter (\<lambda>l. \<not> is_state_line l)
     (buildCommentBody_loop (\<lambda>x. ''?'')
        [\<lparr>number = 1, title = ''Issue One'', body = ''Description'', state = ''open'',
          createdAt = [], updatedAt = []\<rparr>]
        [\<lparr>issue = 1, likelihood = ''High'', reason = Some ''Similar issue''\<rparr>,
         \<lparr>issue = 9, likelihood = ''low'', reason = None\<rparr>] commentHeader)) \<and>
   filter is_state_line
     (buildCommentBody_loop (\<lambda>x. ''?'')
        [\<lparr>number = 1, title = ''Issue One'', body = ''Description'', state = ''open'',
          createdAt = [], updatedAt = []\<rparr>]
        [\<lparr>issue = 1, likelihood = ''High'', reason = Some ''Similar issue''\<rparr>,
         \<lparr>issue = 9, likelihood = ''low'', reason = None\<rparr>] commentHeader) =
     [''**State:** open'', ''**State:** N/A''] \<and>
   buildCommentBody (\<lambda>x. ''?'')
     [\<lparr>issue = 1, likelihood = ''High'', reason = Some ''Similar issue''\<rparr>,
      \<lparr>issue = 9, likelihood = ''low'', reason = None\<rparr>]
     [\<lparr>number = 1, title = ''Issue One'', body = ''Description'', state = ''open'',
       createdAt = [], updatedAt = []\<rparr>] =
   join ''\<newline>''
     (buildCommentBody_loop (\<lambda>x. ''?'')
        [\<lparr>number = 1, title = ''Issue One'', body = ''Description'', state = ''open'',
          createdAt = [], updatedAt = []\<rparr>]
        [\<lparr>issue = 1, likelihood = ''High'', reason = Some ''Similar issue''\<rparr>,
         \<lparr>issue = 9, likelihood = ''low'', reason = None\<rparr>] commentHeader)"
proof -
  let ?outputs = "[\<lparr>issue = 1, likelihood = ''High'', reason = Some ''Similar issue''\<rparr>,
                   \<lparr>issue = 9, likelihood = ''low'', reason = None\<rparr>]"
  let ?issues = "[\<lparr>number = 1, title = ''Issue One'', body = ''Description'', state = ''open'',
                    createdAt = [], updatedAt = []\<rparr>]"
  have ne: "?outputs \<noteq> []" by simp
  have states: "map (\<lambda>output. ''**State:** '' @
            or_NA (map_option state (find (\<lambda>c. number c = issue output) ?issues))) ?outputs =
          [''**State:** open'', ''**State:** N/A'']"
    by (simp add: or_NA_def)
  from trimmed_report_is_full_report_without_state [of "\<lambda>x. ''?''" ?outputs ?issues] ne states
  show ?thesis by (simp only: simp_thms)
qed


end
